theory Spec2Isabelle
  imports Main
begin

section \<open>Data model (main.go, lines 16-84)\<close>

text \<open>
  Go strings are byte sequences and \<open>len\<close> counts bytes, so they are HOL strings
  (lists of 8-bit characters). The three structs of the source become records that keep
  the field names. \<open>UpdatedAt\<close> is a \<open>time.Time\<close>; only its identity matters here,
  so it is kept as an integer instant.
\<close>

record repository =
  FullName :: string

record subject =
  Type :: string
  Title :: string
  URL :: string

record notification =
  ID :: string
  Unread :: bool
  Reason :: string
  Repository :: repository
  Subject :: subject
  UpdatedAt :: int

text \<open>
  A Go \<open>error\<close> value is represented by the text its \<open>Error()\<close> method returns;
  the nil error of the field \<open>err\<close> is \<open>None\<close>.
\<close>

type_synonym go_error = string

record model =
  notifications :: "notification list"
  selectedIndex :: int
  loading :: bool
  err :: "go_error option"
  showingSummary :: bool
  summaryContent :: string
  statusMessage :: string
  terminalWidth :: int
  terminalHeight :: int

text \<open>
  The messages of the type switch in \<open>Update\<close>. \<open>KeyMsg\<close> carries the result of
  \<open>msg.String()\<close>, the only thing \<open>handleKeyPress\<close> reads. \<open>errorMsg\<close> is an
  interface type, so its case takes every message that is an error; \<open>OtherMsg\<close> stands
  for every message that matches no case.
\<close>

datatype msg =
    WindowSizeMsg int int
  | KeyMsg string
  | NotificationsLoadedMsg "notification list"
  | NotificationMarkedMsg string
  | ErrorMsg go_error
  | StatusMsg string
  | OtherMsg

text \<open>The commands a transition can return (\<open>tea.Cmd\<close>); \<open>nil\<close> is \<open>None\<close>.\<close>

datatype cmd =
    Quit
  | FetchNotificationsCmd
  | MarkAsReadCmd string
  | OpenInBrowserCmd notification

text \<open>Run-time panics of Go: an index or a slice bound out of range.\<close>

datatype panic = IndexOutOfRange | SliceBoundsOutOfRange

section \<open>Go primitives\<close>

text \<open>\<open>len(xs)\<close> as a Go \<open>int\<close>.\<close>

definition len :: "'a list \<Rightarrow> int" where
  "len xs = int (length xs)"

text \<open>\<open>xs[i]\<close>: panics outside \<open>0 \<le> i < len(xs)\<close>.\<close>

definition index_at :: "'a list \<Rightarrow> int \<Rightarrow> panic + 'a" where
  "index_at xs i = (if 0 \<le> i \<and> i < len xs then Inr (xs ! nat i) else Inl IndexOutOfRange)"

text \<open>\<open>xs[:hi]\<close> and \<open>xs[lo:]\<close>: panic unless the bound lies in \<open>[0, len(xs)]\<close>.\<close>

definition slice_to :: "'a list \<Rightarrow> int \<Rightarrow> panic + 'a list" where
  "slice_to xs hi =
     (if 0 \<le> hi \<and> hi \<le> len xs then Inr (take (nat hi) xs) else Inl SliceBoundsOutOfRange)"

definition slice_from :: "'a list \<Rightarrow> int \<Rightarrow> panic + 'a list" where
  "slice_from xs lo =
     (if 0 \<le> lo \<and> lo \<le> len xs then Inr (drop (nat lo) xs) else Inl SliceBoundsOutOfRange)"

text \<open>
  Go's \<open>int\<close> is a 64-bit two's complement integer: sums and differences wrap around.
  \<open>wrap64\<close> maps an integer to its representative in \<open>[-2^63, 2^63)\<close>. The wrap is
  written wherever an operand comes from outside (the terminal size of a resize message,
  an index argument); the decrement and increment of \<open>handleKeyPress\<close> and the
  \<open>len(..) - 1\<close> of \<open>Update\<close> are guarded by the source so that no 64-bit value
  overflows there, and are plain integer arithmetic.
\<close>

definition wrap64 :: "int \<Rightarrow> int" where
  "wrap64 x = (x + 2 ^ 63) mod 2 ^ 64 - 2 ^ 63"

definition add64 :: "int \<Rightarrow> int \<Rightarrow> int" where
  "add64 a b = wrap64 (a + b)"

definition sub64 :: "int \<Rightarrow> int \<Rightarrow> int" where
  "sub64 a b = wrap64 (a - b)"

text \<open>Go's integer division truncates towards zero.\<close>

definition quot :: "int \<Rightarrow> int \<Rightarrow> int" where
  "quot a b = sgn a * sgn b * (\<bar>a\<bar> div \<bar>b\<bar>)"

text \<open>The verb \<open>%d\<close> of \<open>fmt.Sprintf\<close>: decimal digits, with a minus sign.\<close>

definition digit_char :: "nat \<Rightarrow> char" where
  "digit_char d = ''0123456789'' ! d"

fun digits10 :: "nat \<Rightarrow> string" where
  "digits10 n = (if n < 10 then [digit_char n] else digits10 (n div 10) @ [digit_char (n mod 10)])"

declare digits10.simps [simp del]

definition fmt_d :: "int \<Rightarrow> string" where
  "fmt_d i = (if i < 0 then CHR ''-'' # digits10 (nat (- i)) else digits10 (nat i))"

text \<open>
  The value a reader gives to a decimal numeral. It is not part of the program: it states
  what the text printed by \<open>%d\<close> means, independently of how the digits are produced.
\<close>

definition digit_val :: "char \<Rightarrow> nat" where
  "digit_val c = of_char c - 48"

definition decimal_value :: "string \<Rightarrow> nat" where
  "decimal_value s = foldl (\<lambda>a c. 10 * a + digit_val c) 0 s"

section \<open>The reducer (main.go, lines 216-330)\<close>

definition initialModel :: model where
  "initialModel =
     \<lparr> notifications = [], selectedIndex = 0, loading = True, err = None,
       showingSummary = False, summaryContent = [],
       statusMessage = ''Loading notifications...'',
       terminalWidth = 80, terminalHeight = 24 \<rparr>"

text \<open>
  The index adjustment after a removal (lines 260-265), on the model whose list has
  already been replaced.
\<close>

definition adjustSelected :: "model \<Rightarrow> model" where
  "adjustSelected m =
     (let m1 = (if selectedIndex m \<ge> len (notifications m) \<and> len (notifications m) > 0
                then m\<lparr>selectedIndex := len (notifications m) - 1\<rparr> else m)
      in if len (notifications m1) = 0 then m1\<lparr>selectedIndex := 0\<rparr> else m1)"

text \<open>
  The \<open>range\<close> loop of lines 256-268. The range expression is evaluated once, so the
  loop walks the list as it was (\<open>rest\<close> is what is left of it, \<open>i\<close> the index of its
  head); at the first record whose ID matches it replaces the list by
  \<open>append(m.notifications[:i], m.notifications[i+1:]...)\<close>, adjusts the index and
  breaks.
\<close>

fun removeMarked :: "string \<Rightarrow> notification list \<Rightarrow> int \<Rightarrow> model \<Rightarrow> panic + model" where
  "removeMarked nid [] i m = Inr m"
| "removeMarked nid (n # rest) i m =
     (if ID n = nid then
        (case slice_to (notifications m) i of
           Inl p \<Rightarrow> Inl p
         | Inr front \<Rightarrow>
             (case slice_from (notifications m) (i + 1) of
                Inl p \<Rightarrow> Inl p
              | Inr back \<Rightarrow> Inr (adjustSelected (m\<lparr>notifications := front @ back\<rparr>))))
      else removeMarked nid rest (i + 1) m)"

definition handleKeyPress :: "model \<Rightarrow> string \<Rightarrow> panic + (model \<times> cmd option)" where
  "handleKeyPress m k =
     (if k = ''q'' \<or> k = ''ctrl+c'' then Inr (m, Some Quit)
      else if k = ''up'' \<or> k = ''k'' then
        Inr (if selectedIndex m > 0 then m\<lparr>selectedIndex := selectedIndex m - 1\<rparr> else m, None)
      else if k = ''down'' \<or> k = ''j'' then
        Inr (if selectedIndex m < len (notifications m) - 1
             then m\<lparr>selectedIndex := selectedIndex m + 1\<rparr> else m, None)
      else if k = ''enter'' then
        (if len (notifications m) > 0 then
           (case index_at (notifications m) (selectedIndex m) of
              Inl p \<Rightarrow> Inl p
            | Inr n \<Rightarrow> Inr (m, Some (OpenInBrowserCmd n)))
         else Inr (m, None))
      else if k = ''r'' then
        (if len (notifications m) > 0 then
           (case index_at (notifications m) (selectedIndex m) of
              Inl p \<Rightarrow> Inl p
            | Inr n \<Rightarrow> Inr (m, Some (MarkAsReadCmd (ID n))))
         else Inr (m, None))
      else if k = ''f'' \<or> k = ''F5'' then
        Inr (m\<lparr>loading := True, statusMessage := ''Refreshing notifications...''\<rparr>,
             Some FetchNotificationsCmd)
      else if k = ''tab'' then
        Inr (m\<lparr>statusMessage := ''Summary view coming soon...''\<rparr>, None)
      else Inr (m, None))"

fun Update :: "model \<Rightarrow> msg \<Rightarrow> panic + (model \<times> cmd option)" where
  "Update m (WindowSizeMsg w h) = Inr (m\<lparr>terminalWidth := w, terminalHeight := h\<rparr>, None)"
| "Update m (KeyMsg k) = handleKeyPress m k"
| "Update m (NotificationsLoadedMsg ns) =
     (let m1 = m\<lparr>notifications := ns, loading := False, err := None\<rparr>;
          m2 = m1\<lparr>statusMessage := ''Loaded '' @ fmt_d (len (notifications m1)) @ '' notifications''\<rparr>;
          m3 = (if len (notifications m2) = 0
                then m2\<lparr>statusMessage := ''No notifications found''\<rparr> else m2)
      in Inr (m3, None))"
| "Update m (NotificationMarkedMsg nid) =
     (case removeMarked nid (notifications m) 0 m of
        Inl p \<Rightarrow> Inl p
      | Inr m1 \<Rightarrow> Inr (m1\<lparr>statusMessage := ''Notification marked as read''\<rparr>, None))"
| "Update m (ErrorMsg e) =
     (let m1 = m\<lparr>err := Some e, loading := False\<rparr>
      in Inr (m1\<lparr>statusMessage := ''Error: '' @ the (err m1)\<rparr>, None))"
| "Update m (StatusMsg s) = Inr (m\<lparr>statusMessage := s\<rparr>, None)"
| "Update m OtherMsg = Inr (m, None)"

text \<open>
  The event loop feeds the messages to \<open>Update\<close> one after the other; a panic ends
  the program.
\<close>

fun run :: "model \<Rightarrow> msg list \<Rightarrow> panic + model" where
  "run m [] = Inr m"
| "run m (x # xs) = (case Update m x of Inl p \<Rightarrow> Inl p | Inr (m', c) \<Rightarrow> run m' xs)"

section \<open>The gateway (main.go, lines 130-214)\<close>

text \<open>
  \<open>strings.Split(s, "/")\<close> of the standard library: the substrings between the
  separators, in order; a string without separator is the single part.
\<close>

fun split_on :: "char \<Rightarrow> string \<Rightarrow> string list" where
  "split_on c [] = [[]]"
| "split_on c (x # xs) =
     (if x = c then [] # split_on c xs
      else (case split_on c xs of [] \<Rightarrow> [[x]] | p # ps \<Rightarrow> (x # p) # ps))"

definition extractIssueNumber :: "string \<Rightarrow> string" where
  "extractIssueNumber url =
     (let parts = split_on CHR ''/'' url
      in if len parts > 0 then parts ! nat (len parts - 1) else [])"

definition RepoName :: "notification \<Rightarrow> string" where
  "RepoName n = FullName (Repository n)"

text \<open>
  \<open>openInBrowser\<close> builds one \<open>exec.Cmd\<close> and runs it; the model returns the
  argument vector of that command, which is the target the function resolves.
\<close>

definition openInBrowser :: "notification \<Rightarrow> string list" where
  "openInBrowser n =
     (let repo = RepoName n; issueNum = extractIssueNumber (URL (Subject n))
      in if issueNum \<noteq> [] then
           (if Type (Subject n) = ''Issue'' then
              [''gh'', ''issue'', ''view'', issueNum, ''-R'', repo, ''--web'']
            else if Type (Subject n) = ''PullRequest'' then
              [''gh'', ''pr'', ''view'', issueNum, ''-R'', repo, ''--web'']
            else [''gh'', ''repo'', ''view'', repo, ''--web''])
         else [''gh'', ''repo'', ''view'', repo, ''--web''])"

text \<open>
  The three commands turn the outcome of a gateway call into the one message they
  deliver. The outcome is an argument: \<open>None\<close> is the nil error.
\<close>

definition fetchNotificationsCmd :: "go_error + notification list \<Rightarrow> msg" where
  "fetchNotificationsCmd r = (case r of Inl e \<Rightarrow> ErrorMsg e | Inr ns \<Rightarrow> NotificationsLoadedMsg ns)"

definition markAsReadCmd :: "string \<Rightarrow> go_error option \<Rightarrow> msg" where
  "markAsReadCmd nid r =
     (case r of Some e \<Rightarrow> ErrorMsg (''failed to mark as read: '' @ e)
              | None \<Rightarrow> NotificationMarkedMsg nid)"

definition openInBrowserCmd :: "notification \<Rightarrow> go_error option \<Rightarrow> msg" where
  "openInBrowserCmd n r =
     (case r of Some e \<Rightarrow> ErrorMsg (''failed to open in browser: '' @ e)
              | None \<Rightarrow> StatusMsg ''Opened in browser'')"

section \<open>The renderer (main.go, lines 36-65 and 332-438)\<close>

text \<open>
  The styles are values of the lipgloss library and the padding of \<open>%-20s\<close> counts
  runes with the standard library; both are outside the program, so the renderer takes
  them as parameters: \<open>render s x\<close> is \<open>s.Render(x)\<close> and \<open>runeCount\<close> is
  \<open>utf8.RuneCountInString\<close>.
\<close>

datatype style =
  TitleStyle | HeaderStyle | SelectedStyle | UnreadStyle | ReadStyle | DimStyle | StatusStyle

record env =
  render :: "style \<Rightarrow> string \<Rightarrow> string"
  runeCount :: "string \<Rightarrow> nat"

text \<open>\<open>%-Ns\<close> pads on the right to N runes, \<open>%Nd\<close> pads the digits on the left.\<close>

definition pad_right :: "env \<Rightarrow> nat \<Rightarrow> string \<Rightarrow> string" where
  "pad_right E w s = s @ replicate (w - runeCount E s) CHR '' ''"

definition pad_left :: "nat \<Rightarrow> string \<Rightarrow> string" where
  "pad_left w s = replicate (w - length s) CHR '' '' @ s"

text \<open>The two circles are the UTF-8 encodings of U+25CF and U+25CB.\<close>

definition StatusIcon :: "notification \<Rightarrow> string" where
  "StatusIcon n = (if Unread n then [CHR 0xE2, CHR 0x97, CHR 0x8F] else [CHR 0xE2, CHR 0x97, CHR 0x8B])"

definition TypeDisplay :: "notification \<Rightarrow> string" where
  "TypeDisplay n =
     (if Type (Subject n) = ''PullRequest'' then ''pr''
      else if Type (Subject n) = ''Issue'' then ''issue''
      else if Type (Subject n) = ''Release'' then ''release''
      else if Type (Subject n) = ''Discussion'' then ''discuss''
      else ''other'')"

text \<open>Lines 408-411: the width left for the title, with its floor.\<close>

definition maxTitleLen :: "model \<Rightarrow> int" where
  "maxTitleLen m = (let w = sub64 (terminalWidth m) 45 in if w < 20 then 20 else w)"

text \<open>Lines 413-416 and 419-422: the two truncations.\<close>

definition truncateTitle :: "model \<Rightarrow> string \<Rightarrow> panic + string" where
  "truncateTitle m title =
     (if len title > maxTitleLen m then
        (case slice_to title (sub64 (maxTitleLen m) 3) of
           Inl p \<Rightarrow> Inl p
         | Inr t \<Rightarrow> Inr (t @ ''...''))
      else Inr title)"

definition truncateRepo :: "string \<Rightarrow> panic + string" where
  "truncateRepo repo =
     (if len repo > 20 then
        (case slice_to repo 17 of Inl p \<Rightarrow> Inl p | Inr r \<Rightarrow> Inr (r @ ''...''))
      else Inr repo)"

definition formatNotificationLine :: "env \<Rightarrow> model \<Rightarrow> notification \<Rightarrow> int \<Rightarrow> panic + string" where
  "formatNotificationLine E m n index =
     (case truncateTitle m (Title (Subject n)) of
        Inl p \<Rightarrow> Inl p
      | Inr title \<Rightarrow>
          (case truncateRepo (RepoName n) of
             Inl p \<Rightarrow> Inl p
           | Inr repo \<Rightarrow>
               (let statusIcon = (if Unread n then render E UnreadStyle (StatusIcon n)
                                  else render E ReadStyle (StatusIcon n))
                in Inr (pad_left 2 (fmt_d (add64 index 1)) @ '' '' @ statusIcon @ '' ''
                        @ pad_right E 20 repo @ '' '' @ pad_right E 10 (TypeDisplay n)
                        @ '' '' @ title))))"

text \<open>Lines 358-376: the window \<open>(startIdx, endIdx)\<close> of the rows that are drawn.\<close>

definition visibleHeight :: "model \<Rightarrow> int" where
  "visibleHeight m = sub64 (terminalHeight m) 8"

definition visibleRange :: "model \<Rightarrow> int \<times> int" where
  "visibleRange m =
     (let n = len (notifications m); vh = visibleHeight m
      in if n > vh then
           (let s0 = sub64 (selectedIndex m) (quot vh 2);
                s1 = (if s0 < 0 then 0 else s0);
                e1 = add64 s1 vh
            in if e1 > n then
                 (let s2 = sub64 n vh in (if s2 < 0 then 0 else s2, n))
               else (s1, e1))
         else (0, n))"

text \<open>
  Lines 378-388: the loop over the window, from \<open>i\<close> up to \<open>endIdx\<close>. It returns
  the lines it writes, in order; the selected one is drawn with \<open>selectedStyle\<close>.
\<close>

function viewRows :: "env \<Rightarrow> model \<Rightarrow> int \<Rightarrow> int \<Rightarrow> panic + string list" where
  "viewRows E m i endIdx =
     (if i < endIdx then
        (case index_at (notifications m) i of
           Inl p \<Rightarrow> Inl p
         | Inr n \<Rightarrow>
             (case formatNotificationLine E m n i of
                Inl p \<Rightarrow> Inl p
              | Inr line \<Rightarrow>
                  (case viewRows E m (i + 1) endIdx of
                     Inl p \<Rightarrow> Inl p
                   | Inr rest \<Rightarrow>
                       Inr ((if i = selectedIndex m then render E SelectedStyle line else line)
                            # rest))))
      else Inr [])"
  by pat_completeness auto
termination
  by (relation "measure (\<lambda>(E, m, i, endIdx). nat (endIdx - i))") auto

declare viewRows.simps [simp del]

definition header :: "env \<Rightarrow> string" where
  "header E = ''   '' @ pad_right E 8 ''Status'' @ '' '' @ pad_right E 20 ''Repository''
              @ '' '' @ pad_right E 10 ''Type'' @ '' '' @ ''Title''"

text \<open>The help line; the two arrows are the UTF-8 encodings of U+2191 and U+2193.\<close>

definition helpText :: string where
  "helpText = [CHR 0xE2, CHR 0x86, CHR 0x91, CHR 0xE2, CHR 0x86, CHR 0x93]
          @ '':Navigate  Enter:Open  r:Mark Read  f:Refresh  Tab:Summary  q:Quit''"

definition View :: "env \<Rightarrow> model \<Rightarrow> panic + string" where
  "View E m =
     (if loading m then
        Inr (''\<newline>  '' @ render E TitleStyle ''GitHub Notifications'' @ ''\<newline>\<newline>  ''
             @ ''Loading notifications...'' @ ''\<newline>'')
      else
        (case err m of
           Some e \<Rightarrow>
             Inr (''\<newline>  '' @ render E TitleStyle ''GitHub Notifications''
                  @ ''\<newline>\<newline>  Error: '' @ e @ ''\<newline>\<newline>  Press '' @ [CHR 0x27] @ ''q''
                  @ [CHR 0x27] @ '' to quit, '' @ [CHR 0x27] @ ''f'' @ [CHR 0x27]
                  @ '' to retry\<newline>'')
         | None \<Rightarrow>
             (case (if len (notifications m) > 0 then
                      (case viewRows E m (fst (visibleRange m)) (snd (visibleRange m)) of
                         Inl p \<Rightarrow> Inl p
                       | Inr rows \<Rightarrow>
                           Inr (render E HeaderStyle (header E) @ ''\<newline>''
                                @ concat (map (\<lambda>line. line @ ''\<newline>'') rows)))
                    else Inr ''No notifications found\<newline>'') of
                Inl p \<Rightarrow> Inl p
              | Inr body \<Rightarrow>
                  Inr (render E TitleStyle ''GitHub Notifications'' @ ''\<newline>\<newline>'' @ body
                       @ ''\<newline>'' @ render E StatusStyle (statusMessage m) @ ''\<newline>''
                       @ ''\<newline>'' @ render E DimStyle helpText))))"

section \<open>Example inputs\<close>

text \<open>Two notifications as the gateway delivers them, and states built from them.\<close>

definition n42 :: notification where
  "n42 =
     \<lparr> ID = ''1'', Unread = True, Reason = ''subscribed'',
       Repository = \<lparr> FullName = ''o/r'' \<rparr>,
       Subject = \<lparr> Type = ''Issue'', Title = ''Crash on start'',
                   URL = ''https://api.github.com/repos/o/r/issues/42'' \<rparr>,
       UpdatedAt = 0 \<rparr>"

definition issue_abc :: notification where
  "issue_abc =
     \<lparr> ID = ''1'', Unread = True, Reason = ''subscribed'',
       Repository = \<lparr> FullName = ''o/r'' \<rparr>,
       Subject = \<lparr> Type = ''Issue'', Title = ''Crash on start'',
                   URL = ''https://api.github.com/repos/o/r/issues/abc'' \<rparr>,
       UpdatedAt = 0 \<rparr>"

text \<open>One notification is loaded, and a refresh is under way.\<close>

definition m_refreshing :: model where
  "m_refreshing =
     \<lparr> notifications = [n42], selectedIndex = 0, loading = True, err = None,
       showingSummary = False, summaryContent = [],
       statusMessage = ''Refreshing notifications...'',
       terminalWidth = 80, terminalHeight = 24 \<rparr>"

text \<open>One notification is loaded and shown.\<close>

definition m_one :: model where
  "m_one =
     \<lparr> notifications = [n42], selectedIndex = 0, loading = False, err = None,
       showingSummary = False, summaryContent = [],
       statusMessage = ''Loaded 1 notifications'',
       terminalWidth = 80, terminalHeight = 24 \<rparr>"

text \<open>
  The cursor invariant: the selected index is a position of the list, or 0 when the list
  is empty.
\<close>

definition cursor_ok :: "model \<Rightarrow> bool" where
  "cursor_ok m =
     (0 \<le> selectedIndex m
      \<and> (selectedIndex m < len (notifications m)
         \<or> (notifications m = [] \<and> selectedIndex m = 0)))"

text \<open>The notification \<open>n42\<close> under another id, and a list of five with the last selected.\<close>

definition notif :: "string \<Rightarrow> notification" where
  "notif i = n42\<lparr>ID := i\<rparr>"

definition m_five :: model where
  "m_five = m_one\<lparr>notifications := [notif ''1'', notif ''2'', notif ''3'', notif ''4'', notif ''5''],
                    selectedIndex := 4\<rparr>"

text \<open>A list in which the id \<open>9\<close> occurs twice, at the positions 1 and 3.\<close>

definition m_dup :: model where
  "m_dup = m_one\<lparr>notifications :=
             [notif ''7'', notif ''9'', notif ''8'', (notif ''9'')\<lparr>Unread := False\<rparr>]\<rparr>"

section \<open>The trailing path segment\<close>

lemma split_on_nonempty: "split_on c s \<noteq> []"
  by (induction s) (auto split: list.splits)

lemma split_on_no_sep: "c \<notin> set s \<Longrightarrow> split_on c s = [s]"
  by (induction s) auto

lemma length_split_on: "length (split_on c s) = Suc (length (filter (\<lambda>x. x = c) s))"
  by (induction s) (auto split: list.splits)

lemma last_split_on_cons:
  "last (split_on c (x # xs)) = (if c \<in> set xs \<or> x = c then last (split_on c xs) else x # xs)"
proof (cases "split_on c xs")
  case Nil
  then show ?thesis by (simp add: split_on_nonempty)
next
  case (Cons q qs)
  show ?thesis
  proof (cases "c \<in> set xs")
    case True
    then have "filter (\<lambda>x. x = c) xs \<noteq> []"
      by (auto simp: filter_empty_conv)
    then have "length (split_on c xs) \<ge> 2"
      by (cases "filter (\<lambda>x. x = c) xs") (simp_all add: length_split_on)
    with Cons have "qs \<noteq> []" by auto
    with Cons True show ?thesis by simp
  next
    case False
    then show ?thesis by (simp add: split_on_no_sep)
  qed
qed

lemma last_split_on_append:
  "c \<notin> set seg \<Longrightarrow> last (split_on c (p @ c # seg)) = seg"
proof (induction p)
  case Nil
  then show ?case by (simp add: split_on_no_sep)
next
  case (Cons x p)
  then show ?case by (simp only: append_Cons last_split_on_cons) auto
qed

lemma extractIssueNumber_last: "extractIssueNumber url = last (split_on CHR ''/'' url)"
  using split_on_nonempty [of "CHR ''/''" url]
  by (cases "split_on CHR ''/'' url" rule: rev_cases) (auto simp: extractIssueNumber_def len_def Let_def nth_append)

lemma extractIssueNumber_segment:
  "CHR ''/'' \<notin> set seg \<Longrightarrow> extractIssueNumber (p @ CHR ''/'' # seg) = seg"
  by (simp add: extractIssueNumber_last last_split_on_append)

lemma extractIssueNumber_plain:
  "CHR ''/'' \<notin> set seg \<Longrightarrow> extractIssueNumber seg = seg"
  by (simp add: extractIssueNumber_last split_on_no_sep)

lemma RepoName_Subject_update [simp]: "RepoName (n\<lparr>Subject := s\<rparr>) = RepoName n"
  by (simp add: RepoName_def)

section \<open>Opening a notification\<close>

text \<open>
  Claim C1, as the spec states it, has the repository page opened for every URL whose
  final path segment is not numeric-like. The code tests only that the segment is not
  empty: for an issue whose URL ends in \<open>/abc\<close> it builds the issue-view command with
  the identifier \<open>abc\<close>, not the repository-view command.
\<close>

theorem openInBrowser_not_numeric_counterexample:
  "extractIssueNumber (URL (Subject issue_abc)) = ''abc''
   \<and> openInBrowser issue_abc = [''gh'', ''issue'', ''view'', ''abc'', ''-R'', ''o/r'', ''--web'']
   \<and> openInBrowser issue_abc \<noteq> [''gh'', ''repo'', ''view'', RepoName issue_abc, ''--web'']"
proof -
  have seg: "extractIssueNumber (URL (Subject issue_abc)) = ''abc''"
    using extractIssueNumber_segment [of "''abc''" "''https://api.github.com/repos/o/r/issues''"]
    by (simp add: issue_abc_def)
  have "openInBrowser issue_abc = [''gh'', ''issue'', ''view'', ''abc'', ''-R'', ''o/r'', ''--web'']"
    unfolding openInBrowser_def Let_def seg by (simp add: issue_abc_def RepoName_def)
  with seg show ?thesis by simp
qed

text \<open>
  Claim C1, amended: the target is resolved from the type and the final path segment of
  the URL. A non-empty final segment \<open>seg\<close> (the whole URL when it has no slash) is the
  identifier of the issue-view command for type \<open>Issue\<close> and of the pr-view command
  for type \<open>PullRequest\<close>, whether or not it is numeric, and every other type opens the
  repository page; in particular a URL ending in \<open>/42\<close> gives the identifier \<open>42\<close>.
  An empty final segment (the URL is empty or ends in a slash) opens the repository page
  for every type.
\<close>

theorem openInBrowser_resolves_target:
  assumes "CHR ''/'' \<notin> set seg" and "seg \<noteq> []" and "url = seg \<or> url = p @ CHR ''/'' # seg"
  shows "openInBrowser (n\<lparr>Subject := (Subject n)\<lparr>URL := url\<rparr>\<rparr>) =
           (if Type (Subject n) = ''Issue'' then
              [''gh'', ''issue'', ''view'', seg, ''-R'', RepoName n, ''--web'']
            else if Type (Subject n) = ''PullRequest'' then
              [''gh'', ''pr'', ''view'', seg, ''-R'', RepoName n, ''--web'']
            else [''gh'', ''repo'', ''view'', RepoName n, ''--web''])
         \<and> openInBrowser (n\<lparr>Subject := (Subject n)\<lparr>Type := ''Issue'', URL := q @ ''/42''\<rparr>\<rparr>) =
             [''gh'', ''issue'', ''view'', ''42'', ''-R'', RepoName n, ''--web'']
         \<and> openInBrowser (n\<lparr>Subject := (Subject n)\<lparr>Type := ''PullRequest'', URL := q @ ''/42''\<rparr>\<rparr>) =
             [''gh'', ''pr'', ''view'', ''42'', ''-R'', RepoName n, ''--web'']
         \<and> openInBrowser (n\<lparr>Subject := (Subject n)\<lparr>URL := q @ ''/''\<rparr>\<rparr>) =
             [''gh'', ''repo'', ''view'', RepoName n, ''--web'']
         \<and> openInBrowser (n\<lparr>Subject := (Subject n)\<lparr>URL := []\<rparr>\<rparr>) =
             [''gh'', ''repo'', ''view'', RepoName n, ''--web'']"
proof -
  have a: "extractIssueNumber url = seg"
    using assms extractIssueNumber_segment extractIssueNumber_plain by blast
  have b: "extractIssueNumber (q @ ''/42'') = ''42''"
    using extractIssueNumber_segment [of "''42''" q] by simp
  have c: "extractIssueNumber (q @ ''/'') = []"
    using extractIssueNumber_segment [of "[]" q] by simp
  have d: "extractIssueNumber [] = []"
    by (simp add: extractIssueNumber_plain)
  show ?thesis
    using assms(2) by (simp add: openInBrowser_def Let_def a b c d)
qed

theorem openInBrowser_resolves_target_witness:
  "CHR ''/'' \<notin> set ''42'' \<and> ''42'' \<noteq> []
   \<and> openInBrowser (issue_abc\<lparr>Subject := (Subject issue_abc)
        \<lparr>URL := ''https://api.github.com/repos/o/r/issues/42''\<rparr>\<rparr>) =
       [''gh'', ''issue'', ''view'', ''42'', ''-R'', ''o/r'', ''--web'']"
  using openInBrowser_resolves_target [of "''42''" "''https://api.github.com/repos/o/r/issues/42''"
      "''https://api.github.com/repos/o/r/issues''" issue_abc]
  by (simp add: issue_abc_def RepoName_def)

section \<open>Transitions of the reducer\<close>

lemma removeMarked_no_match:
  "\<forall>n \<in> set rest. ID n \<noteq> nid \<Longrightarrow> removeMarked nid rest i m = Inr m"
  by (induction rest arbitrary: i) auto

lemma digits10_nonempty: "digits10 k \<noteq> []"
  by (subst digits10.simps) simp

lemma digits10_small: "k < 10 \<Longrightarrow> digits10 k = [digit_char k]"
  by (subst digits10.simps) simp

lemma digit_char_cases:
  "d < 10 \<Longrightarrow> d = 0 \<or> d = 1 \<or> d = 2 \<or> d = 3 \<or> d = 4 \<or> d = 5 \<or> d = 6 \<or> d = 7 \<or> d = 8 \<or> d = (9::nat)"
  by arith

lemma digit_val_digit_char: "d < 10 \<Longrightarrow> digit_val (digit_char d) = d"
  using digit_char_cases [of d] by (auto simp: digit_val_def digit_char_def)

lemma digit_char_in_digits: "d < 10 \<Longrightarrow> digit_char d \<in> set ''0123456789''"
  using digit_char_cases [of d] by (auto simp: digit_char_def)

lemma digit_char_nonzero: "0 < d \<Longrightarrow> d < 10 \<Longrightarrow> digit_char d \<noteq> CHR ''0''"
  using digit_char_cases [of d] by (auto simp: digit_char_def)

lemma decimal_value_snoc: "decimal_value (s @ [c]) = 10 * decimal_value s + digit_val c"
  by (simp add: decimal_value_def)

lemma decimal_value_digits10: "decimal_value (digits10 n) = n"
proof (induction n rule: digits10.induct)
  case (1 n)
  show ?case
  proof (cases "n < 10")
    case True
    then show ?thesis
      by (simp add: digits10_small decimal_value_def digit_val_digit_char)
  next
    case False
    then have "digits10 n = digits10 (n div 10) @ [digit_char (n mod 10)]"
      by (subst digits10.simps) simp
    with 1 False show ?thesis
      by (simp add: decimal_value_snoc digit_val_digit_char)
  qed
qed

lemma digits10_digits: "set (digits10 n) \<subseteq> set ''0123456789''"
proof (induction n rule: digits10.induct)
  case (1 n)
  show ?case
  proof (cases "n < 10")
    case True
    then show ?thesis
      using digit_char_in_digits [of n] by (simp add: digits10_small)
  next
    case False
    then have "digits10 n = digits10 (n div 10) @ [digit_char (n mod 10)]"
      by (subst digits10.simps) simp
    with 1 False show ?thesis
      using digit_char_in_digits [of "n mod 10"] by simp
  qed
qed

lemma digits10_no_leading_zero: "0 < n \<Longrightarrow> hd (digits10 n) \<noteq> CHR ''0''"
proof (induction n rule: digits10.induct)
  case (1 n)
  show ?case
  proof (cases "n < 10")
    case True
    with 1 show ?thesis
      by (simp add: digits10_small digit_char_nonzero)
  next
    case False
    then have "digits10 n = digits10 (n div 10) @ [digit_char (n mod 10)]"
      by (subst digits10.simps) simp
    moreover from False have "0 < n div 10" by simp
    ultimately show ?thesis
      using 1 False by (simp add: digits10_nonempty)
  qed
qed

lemma fmt_d_len: "fmt_d (len xs) = digits10 (length xs)"
  by (simp add: fmt_d_def len_def)

text \<open>
  Claim C4: a failure event never changes the list. A failed fetch and a failed mark-read
  both arrive as an error message, and the transition returns a state with the same
  notifications, so the targeted item is still there.
\<close>

theorem Update_failure_keeps_items:
  "(\<exists>m'. Update m (fetchNotificationsCmd (Inl e)) = Inr (m', None)
         \<and> notifications m' = notifications m)
   \<and> (\<exists>m'. Update m (markAsReadCmd nid (Some e)) = Inr (m', None)
         \<and> notifications m' = notifications m)"
  by (simp add: fetchNotificationsCmd_def markAsReadCmd_def Let_def)

text \<open>
  Claim C6: a completed fetch replaces the list by the fetched one, clears \<open>loading\<close> and
  the error, and sets the status to \<open>No notifications found\<close> for an empty list and to
  \<open>Loaded N notifications\<close> otherwise, where N is the decimal numeral of the length: it
  consists of digits, has no leading zero and its decimal value is the length of the
  fetched list, so that lists of different lengths give different texts (three items
  give \<open>3\<close>, twelve give \<open>12\<close>). The two texts differ for every N.
\<close>

theorem Update_loaded:
  "Update m (NotificationsLoadedMsg []) =
     Inr (m\<lparr>notifications := [], loading := False, err := None,
            statusMessage := ''No notifications found''\<rparr>, None)
   \<and> Update m (NotificationsLoadedMsg (n # ns)) =
     Inr (m\<lparr>notifications := n # ns, loading := False, err := None,
            statusMessage := ''Loaded '' @ fmt_d (len (n # ns)) @ '' notifications''\<rparr>, None)
   \<and> fmt_d (len [a, b, c]) = ''3''
   \<and> ''Loaded '' @ fmt_d k @ '' notifications'' \<noteq> ''No notifications found''
   \<and> Update m (fetchNotificationsCmd (Inr ns)) = Update m (NotificationsLoadedMsg ns)
   \<and> decimal_value (fmt_d (len (n # ns))) = length (n # ns)
   \<and> set (fmt_d (len (n # ns))) \<subseteq> set ''0123456789''
   \<and> hd (fmt_d (len (n # ns))) \<noteq> CHR ''0''
   \<and> fmt_d (len [n, n, n, n, n, n, n, n, n, n, n, n]) = ''12''
   \<and> (fmt_d (len xs) = fmt_d (len ys)) = (length xs = length ys)"
proof -
  have "fmt_d (len [a, b, c]) = ''3''"
    by (simp add: len_def fmt_d_def digit_char_def digits10_small)
  moreover have "Update m (NotificationsLoadedMsg (n # ns)) =
     Inr (m\<lparr>notifications := n # ns, loading := False, err := None,
            statusMessage := ''Loaded '' @ fmt_d (len (n # ns)) @ '' notifications''\<rparr>, None)"
    by (simp add: Let_def len_def)
  moreover have "decimal_value (fmt_d (len (n # ns))) = length (n # ns)"
    unfolding fmt_d_len by (rule decimal_value_digits10)
  moreover have "set (fmt_d (len (n # ns))) \<subseteq> set ''0123456789''"
    unfolding fmt_d_len by (rule digits10_digits)
  moreover have "hd (fmt_d (len (n # ns))) \<noteq> CHR ''0''"
    unfolding fmt_d_len by (rule digits10_no_leading_zero) simp
  moreover have "fmt_d (len [n, n, n, n, n, n, n, n, n, n, n, n]) = ''12''"
    unfolding fmt_d_len by (subst digits10.simps) (simp add: digits10_small digit_char_def)
  moreover have "(fmt_d (len xs) = fmt_d (len ys)) = (length xs = length ys)"
    unfolding fmt_d_len using decimal_value_digits10 by metis
  ultimately show ?thesis
    by (simp add: Let_def len_def fetchNotificationsCmd_def)
qed

text \<open>
  Claim C7, as the spec states it, has a failed mark-read or a failed open leave
  \<open>loading\<close> alone. The one case for error messages clears it: after a load, the key
  \<open>r\<close> and the key \<open>f\<close> the state is loading, and the failure of the mark-read that
  \<open>r\<close> started sets \<open>loading\<close> to false.
\<close>

theorem Update_failure_clears_loading_counterexample:
  "run initialModel [NotificationsLoadedMsg [n42], KeyMsg ''r'', KeyMsg ''f''] = Inr m_refreshing
   \<and> loading m_refreshing
   \<and> Update m_refreshing (markAsReadCmd ''1'' (Some ''exit status 1'')) =
       Inr (m_refreshing\<lparr>err := Some ''failed to mark as read: exit status 1'',
              loading := False,
              statusMessage := ''Error: failed to mark as read: exit status 1''\<rparr>, None)
   \<and> loading (m_refreshing\<lparr>err := Some ''failed to mark as read: exit status 1'',
              loading := False,
              statusMessage := ''Error: failed to mark as read: exit status 1''\<rparr>)
       \<noteq> loading m_refreshing"
  by (simp add: initialModel_def m_refreshing_def markAsReadCmd_def handleKeyPress_def
      index_at_def len_def Let_def fmt_d_def digits10_small digit_char_def)

text \<open>
  Claim C7, amended: a failed mark-read or a failed open sets the error, the status text
  and \<open>loading = false\<close>, and changes nothing else: the list, the selected index and
  the terminal size are as before.
\<close>

theorem Update_failure_frame:
  "Update m (markAsReadCmd nid (Some e)) =
     Inr (m\<lparr>err := Some (''failed to mark as read: '' @ e), loading := False,
            statusMessage := ''Error: failed to mark as read: '' @ e\<rparr>, None)
   \<and> Update m (openInBrowserCmd n (Some e)) =
     Inr (m\<lparr>err := Some (''failed to open in browser: '' @ e), loading := False,
            statusMessage := ''Error: failed to open in browser: '' @ e\<rparr>, None)"
  by (simp add: markAsReadCmd_def openInBrowserCmd_def Let_def)

text \<open>
  Claim C9: when no notification has the id of a completed mark-read, the transition
  changes the status text to the confirmation and nothing else, so the list, the
  selected index, \<open>loading\<close> and the error are as before.
\<close>

theorem Update_marked_no_match:
  assumes "nid \<notin> ID ` set (notifications m)"
  shows "Update m (NotificationMarkedMsg nid) =
           Inr (m\<lparr>statusMessage := ''Notification marked as read''\<rparr>, None)"
proof -
  from assms have "\<forall>n \<in> set (notifications m). ID n \<noteq> nid"
    by auto
  then show ?thesis
    by (simp add: removeMarked_no_match)
qed

theorem Update_marked_no_match_witness:
  "''2'' \<notin> ID ` set (notifications m_one)
   \<and> notifications m_one \<noteq> []
   \<and> Update m_one (NotificationMarkedMsg ''2'') =
       Inr (m_one\<lparr>statusMessage := ''Notification marked as read''\<rparr>, None)"
  using Update_marked_no_match [of "''2''" m_one]
  by (simp add: m_one_def n42_def)

section \<open>Removing a notification that was marked as read\<close>

lemma slice_to_prefix: "slice_to (pre @ rest) (int (length pre)) = Inr pre"
  by (simp add: slice_to_def len_def)

lemma slice_from_suffix: "slice_from (pre @ n # post) (int (length pre) + 1) = Inr post"
  by (simp add: slice_from_def len_def nat_add_distrib)

lemma removeMarked_first_match:
  assumes "notifications m = pre @ mid @ n # post" and "\<forall>x \<in> set mid. ID x \<noteq> nid"
    and "ID n = nid"
  shows "removeMarked nid (mid @ n # post) (int (length pre)) m =
           Inr (adjustSelected (m\<lparr>notifications := pre @ mid @ post\<rparr>))"
  using assms
proof (induction mid arbitrary: pre)
  case Nil
  then show ?case
    by (simp add: slice_to_prefix slice_from_suffix)
next
  case (Cons x mid)
  from Cons.prems have split: "notifications m = (pre @ [x]) @ mid @ n # post"
    and nomatch: "\<forall>y \<in> set mid. ID y \<noteq> nid" and x: "ID x \<noteq> nid"
    by simp_all
  have "removeMarked nid (mid @ n # post) (int (length (pre @ [x]))) m =
          Inr (adjustSelected (m\<lparr>notifications := (pre @ [x]) @ mid @ post\<rparr>))"
    by (rule Cons.IH [OF split nomatch Cons.prems(3)])
  moreover have "int (length (pre @ [x])) = int (length pre) + 1"
    by simp
  ultimately show ?case
    using x by (simp add: add.commute)
qed

lemma Update_marked_first_match:
  assumes "notifications m = mid @ n # post" and "\<forall>x \<in> set mid. ID x \<noteq> nid"
    and "ID n = nid"
  shows "Update m (NotificationMarkedMsg nid) =
           Inr ((adjustSelected (m\<lparr>notifications := mid @ post\<rparr>))
                  \<lparr>statusMessage := ''Notification marked as read''\<rparr>, None)"
  using removeMarked_first_match [of m "[]" mid n post nid] assms by simp

lemma cursor_ok_len:
  "cursor_ok m \<longleftrightarrow>
     0 \<le> selectedIndex m
     \<and> (selectedIndex m < len (notifications m)
        \<or> (len (notifications m) = 0 \<and> selectedIndex m = 0))"
  by (simp add: cursor_ok_def len_def)

lemma cursor_ok_adjustSelected:
  assumes "cursor_ok m" and "notifications m = mid @ n # post"
  shows "cursor_ok (adjustSelected (m\<lparr>notifications := mid @ post\<rparr>))"
proof -
  have "len (notifications m) = len (mid @ post) + 1"
    using assms(2) by (simp add: len_def)
  moreover have "0 \<le> len (mid @ post)"
    by (simp add: len_def)
  ultimately show ?thesis
    using assms(1) by (auto simp: cursor_ok_len adjustSelected_def Let_def)
qed

lemma notifications_adjustSelected [simp]: "notifications (adjustSelected m) = notifications m"
  by (simp add: adjustSelected_def Let_def)

lemma first_match_split:
  assumes "nid \<in> ID ` set xs"
  shows "\<exists>mid n post. xs = mid @ n # post \<and> ID n = nid \<and> (\<forall>x \<in> set mid. ID x \<noteq> nid)"
proof -
  from assms have "\<exists>x \<in> set xs. ID x = nid" by auto
  from split_list_first_prop [OF this] show ?thesis by blast
qed


lemma adjustSelected_eq:
  "adjustSelected m =
     m\<lparr>selectedIndex := (if notifications m = [] then 0
                          else if selectedIndex m \<ge> len (notifications m)
                               then len (notifications m) - 1 else selectedIndex m)\<rparr>"
  by (simp add: adjustSelected_def Let_def len_def)

text \<open>
  Claim C2: a completed mark-read removes the first record with the matching id, if there
  is one, and clamps the selected index into the new range in the same transition: the
  new index is 0 when the list has become empty and the smaller of the old index and the
  last position otherwise, and it is the old index when no record matches. Nothing else
  changes but the status text. The transition never panics, and it keeps the cursor
  invariant. From five records with the last one selected, marking the last one gives
  four records and the index 3; on the empty list the index stays 0.
\<close>

theorem Update_marked_removes_and_clamps:
  "\<exists>m'. Update m (NotificationMarkedMsg nid) = Inr (m', None)
     \<and> notifications m' =
         takeWhile (\<lambda>n. ID n \<noteq> nid) (notifications m)
         @ drop 1 (dropWhile (\<lambda>n. ID n \<noteq> nid) (notifications m))
     \<and> selectedIndex m' =
         (if nid \<in> ID ` set (notifications m) then
            (if notifications m' = [] then 0
             else min (selectedIndex m) (len (notifications m') - 1))
          else selectedIndex m)
     \<and> m' = m\<lparr>notifications := notifications m', selectedIndex := selectedIndex m',
               statusMessage := ''Notification marked as read''\<rparr>
     \<and> (cursor_ok m \<longrightarrow> cursor_ok m')
     \<and> (length (notifications m) = 5 \<and> selectedIndex m = 4 \<and> nid = ID (notifications m ! 4)
          \<longrightarrow> length (notifications m') = 4 \<and> selectedIndex m' = 3)
     \<and> (notifications m = [] \<and> selectedIndex m = 0
          \<longrightarrow> notifications m' = [] \<and> selectedIndex m' = 0)"
proof (cases "nid \<in> ID ` set (notifications m)")
  case False
  then have "\<forall>n \<in> set (notifications m). ID n \<noteq> nid"
    by auto
  then have upd: "Update m (NotificationMarkedMsg nid) =
      Inr (m\<lparr>statusMessage := ''Notification marked as read''\<rparr>, None)"
    and tw: "takeWhile (\<lambda>n. ID n \<noteq> nid) (notifications m) = notifications m"
    and dw: "dropWhile (\<lambda>n. ID n \<noteq> nid) (notifications m) = []"
    by (simp_all add: removeMarked_no_match)
  have "nid \<noteq> ID (notifications m ! 4)" if "length (notifications m) = 5"
  proof -
    from that have "notifications m ! 4 \<in> set (notifications m)"
      by (intro nth_mem) simp
    with False show ?thesis by auto
  qed
  then show ?thesis
    unfolding upd using False by (auto simp: tw dw cursor_ok_def)
next
  case True
  from first_match_split [OF this] obtain mid n post
    where xs: "notifications m = mid @ n # post" and n: "ID n = nid"
      and mid: "\<forall>x \<in> set mid. ID x \<noteq> nid"
    by blast
  let ?m1 = "adjustSelected (m\<lparr>notifications := mid @ post\<rparr>)"
  let ?m2 = "?m1\<lparr>statusMessage := ''Notification marked as read''\<rparr>"
  have upd: "Update m (NotificationMarkedMsg nid) = Inr (?m2, None)"
    by (rule Update_marked_first_match [OF xs mid n])
  have tw: "takeWhile (\<lambda>n. ID n \<noteq> nid) (notifications m) = mid"
    using mid n by (simp add: xs takeWhile_append2)
  have dw: "dropWhile (\<lambda>n. ID n \<noteq> nid) (notifications m) = n # post"
    using mid n by (simp add: xs dropWhile_append2)
  have removed: "notifications ?m2 =
      takeWhile (\<lambda>n. ID n \<noteq> nid) (notifications m)
      @ drop 1 (dropWhile (\<lambda>n. ID n \<noteq> nid) (notifications m))"
    by (simp add: tw dw)
  have list: "notifications ?m2 = mid @ post"
    by simp
  have sel: "selectedIndex ?m2 =
      (if mid @ post = [] then 0 else min (selectedIndex m) (len (mid @ post) - 1))"
    by (auto simp: adjustSelected_eq min_def)
  have sel': "selectedIndex ?m2 =
      (if nid \<in> ID ` set (notifications m) then
         (if notifications ?m2 = [] then 0
          else min (selectedIndex m) (len (notifications ?m2) - 1))
       else selectedIndex m)"
    unfolding list sel using True by simp
  have whole: "?m2 = m\<lparr>notifications := notifications ?m2, selectedIndex := selectedIndex ?m2,
               statusMessage := ''Notification marked as read''\<rparr>"
    by (simp add: adjustSelected_eq)
  have ok: "cursor_ok m \<longrightarrow> cursor_ok ?m2"
    using cursor_ok_adjustSelected [OF _ xs] by (simp add: cursor_ok_def)
  have five: "length (notifications m) = 5 \<and> selectedIndex m = 4 \<and> nid = ID (notifications m ! 4)
      \<longrightarrow> length (notifications ?m2) = 4 \<and> selectedIndex ?m2 = 3"
  proof (intro impI, elim conjE)
    assume l: "length (notifications m) = 5" and s: "selectedIndex m = 4"
    from l have "len (mid @ post) = 4"
      by (simp add: xs len_def)
    with s have "selectedIndex ?m1 = 3"
      by (simp add: adjustSelected_def Let_def)
    moreover from l have "length (notifications ?m2) = 4"
      by (simp add: xs)
    ultimately show "length (notifications ?m2) = 4 \<and> selectedIndex ?m2 = 3"
      by simp
  qed
  have empty: "notifications m = [] \<and> selectedIndex m = 0
      \<longrightarrow> notifications ?m2 = [] \<and> selectedIndex ?m2 = 0"
    by (simp add: xs)
  have "Update m (NotificationMarkedMsg nid) = Inr (?m2, None)
     \<and> notifications ?m2 =
         takeWhile (\<lambda>n. ID n \<noteq> nid) (notifications m)
         @ drop 1 (dropWhile (\<lambda>n. ID n \<noteq> nid) (notifications m))
     \<and> selectedIndex ?m2 =
         (if nid \<in> ID ` set (notifications m) then
            (if notifications ?m2 = [] then 0
             else min (selectedIndex m) (len (notifications ?m2) - 1))
          else selectedIndex m)
     \<and> ?m2 = m\<lparr>notifications := notifications ?m2, selectedIndex := selectedIndex ?m2,
               statusMessage := ''Notification marked as read''\<rparr>
     \<and> (cursor_ok m \<longrightarrow> cursor_ok ?m2)
     \<and> (length (notifications m) = 5 \<and> selectedIndex m = 4 \<and> nid = ID (notifications m ! 4)
          \<longrightarrow> length (notifications ?m2) = 4 \<and> selectedIndex ?m2 = 3)
     \<and> (notifications m = [] \<and> selectedIndex m = 0
          \<longrightarrow> notifications ?m2 = [] \<and> selectedIndex ?m2 = 0)"
    using upd removed sel' whole ok five empty by (intro conjI)
  then show ?thesis
    by (rule exI [where x = "?m2"])
qed

theorem Update_marked_removes_and_clamps_witness:
  "length (notifications m_five) = 5 \<and> selectedIndex m_five = 4
   \<and> ''5'' = ID (notifications m_five ! 4) \<and> cursor_ok m_five
   \<and> Update m_five (NotificationMarkedMsg ''5'') =
       Inr (m_five\<lparr>notifications := [notif ''1'', notif ''2'', notif ''3'', notif ''4''],
              selectedIndex := 3, statusMessage := ''Notification marked as read''\<rparr>, None)
   \<and> notifications initialModel = [] \<and> selectedIndex initialModel = 0
   \<and> Update initialModel (NotificationMarkedMsg ''5'') =
       Inr (initialModel\<lparr>statusMessage := ''Notification marked as read''\<rparr>, None)"
  using Update_marked_removes_and_clamps [of m_five "''5''"]
    Update_marked_removes_and_clamps [of initialModel "''5''"]
  by (simp add: m_five_def m_one_def notif_def n42_def initialModel_def cursor_ok_def len_def
      slice_to_def slice_from_def adjustSelected_def Let_def)

lemma nth_remove_before: "j < length mid \<Longrightarrow> (mid @ post) ! j = (mid @ n # post) ! j"
  by (simp add: nth_append)

lemma nth_remove_after:
  assumes "length mid < j"
  shows "(mid @ post) ! (j - 1) = (mid @ n # post) ! j"
proof -
  from assms obtain k where j: "j = Suc (length mid + k)"
    using less_imp_Suc_add by blast
  show ?thesis
    unfolding j by (simp add: nth_append)
qed

lemma first_match_at:
  assumes "i < length xs" and "\<forall>j<i. ID (xs ! j) \<noteq> nid"
  shows "xs = take i xs @ xs ! i # drop (Suc i) xs \<and> (\<forall>x \<in> set (take i xs). ID x \<noteq> nid)"
proof
  show "xs = take i xs @ xs ! i # drop (Suc i) xs"
    using assms(1) by (rule id_take_nth_drop)
  show "\<forall>x \<in> set (take i xs). ID x \<noteq> nid"
  proof
    fix x assume "x \<in> set (take i xs)"
    then obtain j where "j < length (take i xs)" and "x = take i xs ! j"
      by (auto simp: in_set_conv_nth)
    with assms show "ID x \<noteq> nid" by simp
  qed
qed

text \<open>
  Claim C10: when the record at position \<open>i\<close> is the first one with the id of a completed
  mark-read, the transition removes that record and no other: the list is one shorter,
  the records before \<open>i\<close> stay where they are, the records after \<open>i\<close> move up by one,
  and the records with that id that are left are exactly those that came after \<open>i\<close>, so
  every later duplicate remains.
\<close>

theorem Update_marked_removes_first_duplicate:
  assumes "i < length (notifications m)" and "ID (notifications m ! i) = nid"
    and "\<forall>j<i. ID (notifications m ! j) \<noteq> nid"
  shows "\<exists>m'. Update m (NotificationMarkedMsg nid) = Inr (m', None)
           \<and> notifications m' = take i (notifications m) @ drop (Suc i) (notifications m)
           \<and> length (notifications m') = length (notifications m) - 1
           \<and> length (filter (\<lambda>n. ID n = nid) (notifications m')) =
               length (filter (\<lambda>n. ID n = nid) (notifications m)) - 1
           \<and> filter (\<lambda>n. ID n = nid) (notifications m') =
               filter (\<lambda>n. ID n = nid) (drop (Suc i) (notifications m))
           \<and> (\<forall>j<i. notifications m' ! j = notifications m ! j)
           \<and> (\<forall>j. i < j \<and> j < length (notifications m)
                 \<longrightarrow> notifications m' ! (j - 1) = notifications m ! j)"
proof -
  define mid where "mid = take i (notifications m)"
  define post where "post = drop (Suc i) (notifications m)"
  define n where "n = notifications m ! i"
  let ?m2 = "(adjustSelected (m\<lparr>notifications := mid @ post\<rparr>))
               \<lparr>statusMessage := ''Notification marked as read''\<rparr>"
  have xs: "notifications m = mid @ n # post"
    unfolding mid_def post_def n_def by (rule conjunct1 [OF first_match_at [OF assms(1,3)]])
  have mid: "\<forall>x \<in> set mid. ID x \<noteq> nid"
    unfolding mid_def by (rule conjunct2 [OF first_match_at [OF assms(1,3)]])
  have n: "ID n = nid"
    using assms(2) by (simp add: n_def)
  have lmid: "length mid = i"
    using assms(1) by (simp add: mid_def)
  have upd: "Update m (NotificationMarkedMsg nid) = Inr (?m2, None)"
    by (rule Update_marked_first_match [OF xs mid n])
  have list: "notifications ?m2 = mid @ post"
    by simp
  have fmid: "filter (\<lambda>n. ID n = nid) mid = []"
    using mid by (simp add: filter_empty_conv)
  have c1: "notifications ?m2 = take i (notifications m) @ drop (Suc i) (notifications m)"
    unfolding list by (simp add: mid_def post_def)
  have c2: "length (notifications ?m2) = length (notifications m) - 1"
    unfolding list xs by simp
  have c3: "length (filter (\<lambda>n. ID n = nid) (notifications ?m2)) =
      length (filter (\<lambda>n. ID n = nid) (notifications m)) - 1"
    unfolding list xs using n by simp
  have c4: "filter (\<lambda>n. ID n = nid) (notifications ?m2) =
      filter (\<lambda>n. ID n = nid) (drop (Suc i) (notifications m))"
    unfolding list by (simp add: fmid post_def)
  have c5: "\<forall>j<i. notifications ?m2 ! j = notifications m ! j"
    unfolding list xs using lmid nth_remove_before [of _ mid post n] by simp
  have c6: "\<forall>j. i < j \<and> j < length (notifications m)
      \<longrightarrow> notifications ?m2 ! (j - 1) = notifications m ! j"
    unfolding list xs using lmid nth_remove_after [of mid _ post n] by simp
  from upd c1 c2 c3 c4 c5 c6
  have conj: "Update m (NotificationMarkedMsg nid) = Inr (?m2, None)
      \<and> notifications ?m2 = take i (notifications m) @ drop (Suc i) (notifications m)
      \<and> length (notifications ?m2) = length (notifications m) - 1
      \<and> length (filter (\<lambda>n. ID n = nid) (notifications ?m2)) =
          length (filter (\<lambda>n. ID n = nid) (notifications m)) - 1
      \<and> filter (\<lambda>n. ID n = nid) (notifications ?m2) =
          filter (\<lambda>n. ID n = nid) (drop (Suc i) (notifications m))
      \<and> (\<forall>j<i. notifications ?m2 ! j = notifications m ! j)
      \<and> (\<forall>j. i < j \<and> j < length (notifications m)
            \<longrightarrow> notifications ?m2 ! (j - 1) = notifications m ! j)"
    by (intro conjI)
  show ?thesis
    by (rule exI [where x = "?m2"]) (rule conj)
qed

theorem Update_marked_removes_first_duplicate_witness:
  "(1::nat) < length (notifications m_dup) \<and> ID (notifications m_dup ! 1) = ''9''
   \<and> ID (notifications m_dup ! 0) \<noteq> ''9'' \<and> ID (notifications m_dup ! 3) = ''9''
   \<and> Update m_dup (NotificationMarkedMsg ''9'') =
       Inr (m_dup\<lparr>notifications := [notif ''7'', notif ''8'', (notif ''9'')\<lparr>Unread := False\<rparr>],
              statusMessage := ''Notification marked as read''\<rparr>, None)"
  using Update_marked_removes_first_duplicate [of 1 m_dup "''9''"]
  by (simp add: m_dup_def m_one_def notif_def n42_def len_def
      slice_to_def slice_from_def adjustSelected_def Let_def)

section \<open>Moving the cursor\<close>

lemma Update_navigation_key:
  assumes "cursor_ok m" and "k \<in> {''up'', ''k'', ''down'', ''j''}"
  shows "Update m (KeyMsg k) =
           Inr (m\<lparr>selectedIndex :=
                  (if k = ''up'' \<or> k = ''k'' then max 0 (selectedIndex m - 1)
                   else if notifications m = [] then 0
                   else min (len (notifications m) - 1) (selectedIndex m + 1))\<rparr>, None)
         \<and> cursor_ok (m\<lparr>selectedIndex :=
                  (if k = ''up'' \<or> k = ''k'' then max 0 (selectedIndex m - 1)
                   else if notifications m = [] then 0
                   else min (len (notifications m) - 1) (selectedIndex m + 1))\<rparr>)"
proof -
  from assms(2) consider "k = ''up'' \<or> k = ''k''" | "k = ''down'' \<or> k = ''j''"
    by auto
  then show ?thesis
  proof cases
    case 1
    then have "Update m (KeyMsg k) =
        Inr (if selectedIndex m > 0 then m\<lparr>selectedIndex := selectedIndex m - 1\<rparr> else m, None)"
      by (auto simp: handleKeyPress_def)
    with assms(1) 1 show ?thesis
      by (auto simp: cursor_ok_len max_def)
  next
    case 2
    then have k: "\<not> (k = ''up'' \<or> k = ''k'')"
      by auto
    from 2 have "Update m (KeyMsg k) =
        Inr (if selectedIndex m < len (notifications m) - 1
             then m\<lparr>selectedIndex := selectedIndex m + 1\<rparr> else m, None)"
      by (auto simp: handleKeyPress_def)
    moreover have "(notifications m = []) = (len (notifications m) = 0)"
      by (simp add: len_def)
    ultimately show ?thesis
      using assms(1) k by (auto simp: cursor_ok_len min_def)
  qed
qed

lemma run_navigation_keys:
  assumes "cursor_ok m" and "notifications m = xs"
    and "set ks \<subseteq> {''up'', ''k'', ''down'', ''j''}"
  shows "run m (map KeyMsg ks) =
           Inr (m\<lparr>selectedIndex :=
                  foldl (\<lambda>s k. if k = ''up'' \<or> k = ''k'' then max 0 (s - 1)
                                else if xs = [] then 0 else min (len xs - 1) (s + 1))
                        (selectedIndex m) ks\<rparr>)
         \<and> cursor_ok (m\<lparr>selectedIndex :=
                  foldl (\<lambda>s k. if k = ''up'' \<or> k = ''k'' then max 0 (s - 1)
                                else if xs = [] then 0 else min (len xs - 1) (s + 1))
                        (selectedIndex m) ks\<rparr>)"
  using assms
proof (induction ks arbitrary: m)
  case Nil
  then show ?case by simp
next
  case (Cons k ks)
  let ?f = "\<lambda>s k. if k = ''up'' \<or> k = ''k'' then max (0::int) (s - 1)
                    else if xs = [] then 0 else min (len xs - 1) (s + 1)"
  define v where "v = ?f (selectedIndex m) k"
  from Cons.prems have k: "k \<in> {''up'', ''k'', ''down'', ''j''}"
    and rest: "set ks \<subseteq> {''up'', ''k'', ''down'', ''j''}"
    by simp_all
  from Update_navigation_key [OF Cons.prems(1) k]
  have step: "Update m (KeyMsg k) = Inr (m\<lparr>selectedIndex := v\<rparr>, None)"
    and ok: "cursor_ok (m\<lparr>selectedIndex := v\<rparr>)"
    unfolding v_def Cons.prems(2) by simp_all
  have xs: "notifications (m\<lparr>selectedIndex := v\<rparr>) = xs"
    using Cons.prems(2) by simp
  from Cons.IH [OF ok xs rest]
  have ih: "run (m\<lparr>selectedIndex := v\<rparr>) (map KeyMsg ks) =
          Inr (m\<lparr>selectedIndex := foldl ?f v ks\<rparr>)
        \<and> cursor_ok (m\<lparr>selectedIndex := foldl ?f v ks\<rparr>)"
    by simp
  have "foldl ?f (selectedIndex m) (k # ks) = foldl ?f v ks"
    unfolding v_def by simp
  with step ih show ?case
    by simp
qed

text \<open>
  Claim C3: from a state that satisfies the cursor invariant, every sequence of the keys
  up (\<open>up\<close>, \<open>k\<close>) and down (\<open>down\<close>, \<open>j\<close>) runs without panic and leaves a state whose
  selected index is not negative and is below the length of the list, or is 0 when the
  list is empty. The state differs from the first one in the selected index only, which
  each up key lowers by one down to 0 and each down key raises by one up to the last
  position.
\<close>

theorem cursor_stays_in_range:
  assumes "cursor_ok m" and "set ks \<subseteq> {''up'', ''k'', ''down'', ''j''}"
  shows "\<exists>m'. run m (map KeyMsg ks) = Inr m'
           \<and> m' = m\<lparr>selectedIndex :=
                     foldl (\<lambda>s k. if k = ''up'' \<or> k = ''k'' then max 0 (s - 1)
                                   else if notifications m = [] then 0
                                   else min (len (notifications m) - 1) (s + 1))
                           (selectedIndex m) ks\<rparr>
           \<and> notifications m' = notifications m
           \<and> 0 \<le> selectedIndex m'
           \<and> (selectedIndex m' < len (notifications m')
              \<or> (notifications m' = [] \<and> selectedIndex m' = 0))"
proof -
  let ?m' = "m\<lparr>selectedIndex :=
                     foldl (\<lambda>s k. if k = ''up'' \<or> k = ''k'' then max 0 (s - 1)
                                   else if notifications m = [] then 0
                                   else min (len (notifications m) - 1) (s + 1))
                           (selectedIndex m) ks\<rparr>"
  from run_navigation_keys [OF assms(1) refl assms(2)]
  have r: "run m (map KeyMsg ks) = Inr ?m'" and ok: "cursor_ok ?m'"
    by (rule conjunct1, rule conjunct2)
  have rng1: "0 \<le> selectedIndex ?m'"
    using ok unfolding cursor_ok_def by (rule conjunct1)
  have rng2: "selectedIndex ?m' < len (notifications ?m')
         \<or> (notifications ?m' = [] \<and> selectedIndex ?m' = 0)"
    using ok unfolding cursor_ok_def by (rule conjunct2)
  have same: "notifications ?m' = notifications m"
    by simp
  have conj: "run m (map KeyMsg ks) = Inr ?m'
           \<and> ?m' = ?m'
           \<and> notifications ?m' = notifications m
           \<and> 0 \<le> selectedIndex ?m'
           \<and> (selectedIndex ?m' < len (notifications ?m')
              \<or> (notifications ?m' = [] \<and> selectedIndex ?m' = 0))"
    by (intro conjI) (rule r refl same rng1 rng2)+
  show ?thesis
    by (rule exI [where x = "?m'"]) (rule conj)
qed

theorem cursor_stays_in_range_witness:
  "cursor_ok m_five
   \<and> set [''down'', ''j'', ''up'', ''k'', ''k''] \<subseteq> {''up'', ''k'', ''down'', ''j''}
   \<and> run m_five (map KeyMsg [''down'', ''j'', ''up'', ''k'', ''k'']) =
       Inr (m_five\<lparr>selectedIndex := 1\<rparr>)"
  using cursor_stays_in_range [of m_five "[''down'', ''j'', ''up'', ''k'', ''k'']"]
  by (simp add: m_five_def m_one_def cursor_ok_def len_def handleKeyPress_def)

end
